theory Spec2Isabelle
  imports Complex_Main "HOL-Library.Sublist"
begin

section \<open>The string and number primitives the service relies on\<close>

text \<open>
  The service is written in JavaScript. Its strings are modelled as \<^typ>\<open>string\<close>, a list of
  characters, over the ASCII range: case conversion maps the letters A..Z and a..z and leaves every
  other character alone, and white space is the ASCII white space that \<open>trim\<close> and
  \<open>parseInt\<close> strip (tab, line feed, vertical tab, form feed, carriage return, space).
  Numbers are modelled exactly: the result of \<open>parseInt\<close> is an \<^typ>\<open>int\<close> (\<open>None\<close>
  stands for NaN) and a balance is a finite number, a \<^typ>\<open>rat\<close>, with exact arithmetic; the
  rounding of double-precision numbers, which sets in above \<open>2 ^ 53\<close> for integers, is outside
  the model.
\<close>

definition isUpper :: "char \<Rightarrow> bool" where
  "isUpper c = (65 \<le> (of_char c :: nat) \<and> (of_char c :: nat) \<le> 90)"

definition isLower :: "char \<Rightarrow> bool" where
  "isLower c = (97 \<le> (of_char c :: nat) \<and> (of_char c :: nat) \<le> 122)"

definition lowerChar :: "char \<Rightarrow> char" where
  "lowerChar c = (if isUpper c then char_of ((of_char c :: nat) + 32) else c)"

definition upperChar :: "char \<Rightarrow> char" where
  "upperChar c = (if isLower c then char_of ((of_char c :: nat) - 32) else c)"

definition toLowerCase :: "string \<Rightarrow> string" where
  "toLowerCase s = map lowerChar s"

definition toUpperCase :: "string \<Rightarrow> string" where
  "toUpperCase s = map upperChar s"

definition isWhiteSpace :: "char \<Rightarrow> bool" where
  "isWhiteSpace c = (c \<in> set [CHR 0x09, CHR 0x0A, CHR 0x0B, CHR 0x0C, CHR 0x0D, CHR '' ''])"

definition trim :: "string \<Rightarrow> string" where
  "trim s = rev (dropWhile isWhiteSpace (rev (dropWhile isWhiteSpace s)))"

definition startsWith :: "string \<Rightarrow> string \<Rightarrow> bool" where
  "startsWith s p = prefix p s"

text \<open>
  \<open>s.indexOf(p)\<close>: the least position at which \<open>p\<close> occurs in \<open>s\<close>, and \<open>-1\<close> when it
  occurs nowhere. \<open>indexOfFrom\<close> scans the rest of the string, \<open>i\<close> being the position reached.
\<close>

fun indexOfFrom :: "string \<Rightarrow> nat \<Rightarrow> string \<Rightarrow> int" where
  "indexOfFrom p i [] = (if p = [] then int i else - 1)"
| "indexOfFrom p i (c # cs) = (if prefix p (c # cs) then int i else indexOfFrom p (Suc i) cs)"

definition indexOf :: "string \<Rightarrow> string \<Rightarrow> int" where
  "indexOf s p = indexOfFrom p 0 s"

text \<open>
  \<open>s.substring(a, b)\<close>: both positions are clamped to \<open>[0, length s]\<close> and swapped when the
  first exceeds the second; \<open>s.substring(a)\<close> runs to the end of the string.
\<close>

definition clampIndex :: "string \<Rightarrow> int \<Rightarrow> nat" where
  "clampIndex s i = min (nat i) (length s)"

definition substring :: "string \<Rightarrow> int \<Rightarrow> int \<Rightarrow> string" where
  "substring s a b =
     (let from = min (clampIndex s a) (clampIndex s b);
          to = max (clampIndex s a) (clampIndex s b)
      in take (to - from) (drop from s))"

definition substringFrom :: "string \<Rightarrow> int \<Rightarrow> string" where
  "substringFrom s a = drop (clampIndex s a) s"

text \<open>\<open>s.split(c)\<close> for a one-character separator: never empty, \<open>''''\<close> splits to \<open>[[]]\<close>.\<close>

fun split :: "char \<Rightarrow> string \<Rightarrow> string list" where
  "split sep [] = [[]]"
| "split sep (c # cs) =
     (if c = sep then [] # split sep cs
      else (case split sep cs of [] \<Rightarrow> [[c]] | w # ws \<Rightarrow> (c # w) # ws))"

text \<open>\<open>s.charAt(i)\<close>: the one-character string at position \<open>i\<close>, empty out of range.\<close>

definition charAt :: "string \<Rightarrow> nat \<Rightarrow> string" where
  "charAt s i = (if i < length s then [s ! i] else [])"

text \<open>
  \<open>parseInt(s, 10)\<close>: leading white space is skipped, one sign is read, and the longest run of
  decimal digits that follows is the value; no digit there gives NaN (\<open>None\<close>).
\<close>

definition isDigit :: "char \<Rightarrow> bool" where
  "isDigit c = (48 \<le> (of_char c :: int) \<and> (of_char c :: int) \<le> 57)"

definition digitValue :: "char \<Rightarrow> int" where
  "digitValue c = of_char c - 48"

definition digitsValue :: "string \<Rightarrow> int" where
  "digitsValue ds = foldl (\<lambda>n c. 10 * n + digitValue c) 0 ds"

definition parseInt :: "string \<Rightarrow> int option" where
  "parseInt s =
     (let t = dropWhile isWhiteSpace s;
          neg = (case t of [] \<Rightarrow> False | c # _ \<Rightarrow> c = CHR ''-'');
          u = (case t of [] \<Rightarrow> [] | c # r \<Rightarrow> if c = CHR ''-'' \<or> c = CHR ''+'' then r else t);
          ds = takeWhile isDigit u
      in if ds = [] then None
         else Some (if neg then - digitsValue ds else digitsValue ds))"

text \<open>\<open>n.toString()\<close> of an integer: its decimal digits, after a minus sign when negative.\<close>

definition digitChar :: "int \<Rightarrow> char" where
  "digitChar d = char_of (48 + d)"

function digitsOf :: "int \<Rightarrow> string" where
  "digitsOf n = (if n < 10 then [digitChar n] else digitsOf (n div 10) @ [digitChar (n mod 10)])"
  by pat_completeness auto
termination
  by (relation "measure nat") auto

declare digitsOf.simps [simp del]

definition toString :: "int \<Rightarrow> string" where
  "toString i = (if i < 0 then CHR ''-'' # digitsOf (- i) else digitsOf i)"

section \<open>Amount and date validators\<close>

record 'a validation =
  valid :: bool
  "value" :: "'a option"

definition validateAmount :: "string \<Rightarrow> int validation" where
  "validateAmount amountStr =
     (if amountStr = [] then \<lparr>valid = False, value = None\<rparr>
      else if indexOf amountStr ''-'' \<noteq> - 1 then \<lparr>valid = False, value = None\<rparr>
      else if indexOf amountStr ''.'' \<noteq> - 1 then \<lparr>valid = False, value = None\<rparr>
      else (case parseInt amountStr of
              None \<Rightarrow> \<lparr>valid = False, value = None\<rparr>
            | Some amountNum \<Rightarrow>
                if amountNum \<le> 0 then \<lparr>valid = False, value = None\<rparr>
                else if toString amountNum \<noteq> amountStr then \<lparr>valid = False, value = None\<rparr>
                else \<lparr>valid = True, value = Some amountNum\<rparr>))"

definition validateDate :: "string \<Rightarrow> string validation" where
  "validateDate dateStr =
     (if dateStr = [] then \<lparr>valid = False, value = None\<rparr>
      else if length dateStr \<noteq> 10 then \<lparr>valid = False, value = None\<rparr>
      else if charAt dateStr 4 \<noteq> ''-'' \<or> charAt dateStr 7 \<noteq> ''-''
        then \<lparr>valid = False, value = None\<rparr>
      else (case (parseInt (substring dateStr 0 4), parseInt (substring dateStr 5 7),
                  parseInt (substring dateStr 8 10)) of
              (Some yearNum, Some monthNum, Some dayNum) \<Rightarrow>
                if monthNum < 1 \<or> monthNum > 12 \<or> dayNum < 1 \<or> dayNum > 31
                then \<lparr>valid = False, value = None\<rparr>
                else \<lparr>valid = True, value = Some dateStr\<rparr>
            | _ \<Rightarrow> \<lparr>valid = False, value = None\<rparr>))"

text \<open>
  \<open>isFutureDate\<close> works on the \<open>Date\<close> built-in and the clock. What it takes from them is
  a parameter of the model: the time value of \<open>new Date(dateStr)\<close> (\<open>None\<close> for an invalid
  date), the time value of \<open>new Date()\<close>, and the time value that \<open>setHours(0, 0, 0, 0)\<close>
  leaves, the start of the day in the time zone of the process. Comparing an invalid date gives
  \<open>false\<close>.
\<close>

record platform =
  parseDate :: "string \<Rightarrow> int option"
  currentTime :: int
  setHoursMidnight :: "int \<Rightarrow> int"

definition isFutureDate :: "platform \<Rightarrow> string \<Rightarrow> bool" where
  "isFutureDate pf dateStr =
     (case parseDate pf dateStr of
        None \<Rightarrow> False
      | Some date \<Rightarrow> setHoursMidnight pf date > setHoursMidnight pf (currentTime pf))"

text \<open>\<open>setHours(0, 0, 0, 0)\<close> in a process whose time zone is UTC, on milliseconds.\<close>

definition utcMidnight :: "int \<Rightarrow> int" where
  "utcMidnight t = t - t mod 86400000"

section \<open>The keyword scanner\<close>

datatype code = SY01 | SY02 | SY03 | AM01 | CU01 | CU02 | AC01 | AC02 | AC03 | AP00 | AP01

datatype txtype = DEBIT | CREDIT

text \<open>
  What \<open>parseInstruction\<close> returns. Each of its error returns carries \<open>null\<close> in every field
  but \<open>parseError\<close>, so an error is the code alone (\<open>Inl\<close>); a return without error is the
  record of the extracted tokens (\<open>Inr\<close>), where \<open>execute_by\<close> is \<open>None\<close> for \<open>null\<close>.
\<close>

record parsed =
  p_type :: txtype
  p_amount :: string
  p_currency :: string
  p_debit_account :: string
  p_credit_account :: string
  p_execute_by :: "string option"

text \<open>\<open>executeBy || null\<close>: the empty string counts as no date.\<close>

definition orNull :: "string option \<Rightarrow> string option" where
  "orNull x = (case x of None \<Rightarrow> None | Some s \<Rightarrow> if s = [] then None else Some s)"

definition parseDebit :: "string \<Rightarrow> code + parsed" where
  "parseDebit normalized =
     (let debitPos = indexOf normalized ''debit'';
          fromAccountPos = indexOf normalized ''from account'';
          forCreditPos = indexOf normalized ''for credit to account'';
          onPos = indexOf normalized '' on ''
      in if fromAccountPos = - 1 \<or> forCreditPos = - 1 then Inl SY01
         else if debitPos \<ge> fromAccountPos \<or> fromAccountPos \<ge> forCreditPos then Inl SY02
         else
           (let amountCurrencyPart = trim (substring normalized (debitPos + 5) fromAccountPos);
                parts = split (CHR '' '') amountCurrencyPart
            in if length parts < 2 then Inl SY03
               else
                 (let amount = trim (parts ! 0);
                      currency = toUpperCase (trim (parts ! 1));
                      debitAccount = trim (substring normalized (fromAccountPos + 12) forCreditPos);
                      creditAccountEnd = (if onPos \<noteq> - 1 then onPos else int (length normalized));
                      creditAccount =
                        trim (substring normalized (forCreditPos + 21) creditAccountEnd);
                      executeBy =
                        (if onPos \<noteq> - 1 then Some (trim (substringFrom normalized (onPos + 4)))
                         else None)
                  in Inr \<lparr>p_type = DEBIT, p_amount = amount, p_currency = currency,
                           p_debit_account = debitAccount, p_credit_account = creditAccount,
                           p_execute_by = orNull executeBy\<rparr>)))"

definition parseCredit :: "string \<Rightarrow> code + parsed" where
  "parseCredit normalized =
     (let creditPos = indexOf normalized ''credit'';
          toAccountPos = indexOf normalized ''to account'';
          forDebitPos = indexOf normalized ''for debit from account'';
          onPos = indexOf normalized '' on ''
      in if toAccountPos = - 1 \<or> forDebitPos = - 1 then Inl SY01
         else if creditPos \<ge> toAccountPos \<or> toAccountPos \<ge> forDebitPos then Inl SY02
         else
           (let amountCurrencyPart = trim (substring normalized (creditPos + 6) toAccountPos);
                parts = split (CHR '' '') amountCurrencyPart
            in if length parts < 2 then Inl SY03
               else
                 (let amount = trim (parts ! 0);
                      currency = toUpperCase (trim (parts ! 1));
                      creditAccount = trim (substring normalized (toAccountPos + 10) forDebitPos);
                      debitAccountEnd = (if onPos \<noteq> - 1 then onPos else int (length normalized));
                      debitAccount =
                        trim (substring normalized (forDebitPos + 22) debitAccountEnd);
                      executeBy =
                        (if onPos \<noteq> - 1 then Some (trim (substringFrom normalized (onPos + 4)))
                         else None)
                  in Inr \<lparr>p_type = CREDIT, p_amount = amount, p_currency = currency,
                           p_debit_account = debitAccount, p_credit_account = creditAccount,
                           p_execute_by = orNull executeBy\<rparr>)))"

definition parseInstruction :: "string \<Rightarrow> code + parsed" where
  "parseInstruction instruction =
     (let normalized = trim (toLowerCase instruction);
          isDebitFormat = startsWith normalized ''debit'';
          isCreditFormat = startsWith normalized ''credit''
      in if \<not> isDebitFormat \<and> \<not> isCreditFormat then Inl SY03
         else if isDebitFormat then parseDebit normalized
         else parseCredit normalized)"

section \<open>The account resolver\<close>

record account =
  acc_id :: string
  acc_balance :: rat
  acc_currency :: string

record account_view =
  v_id :: string
  v_balance :: rat
  v_balance_before :: rat
  v_currency :: string

fun findAccount :: "account list \<Rightarrow> string \<Rightarrow> account option" where
  "findAccount [] accountId = None"
| "findAccount (a # as) accountId =
     (if acc_id a = accountId then Some a else findAccount as accountId)"

fun getAccountsInOrder :: "account list \<Rightarrow> string \<Rightarrow> string \<Rightarrow> account_view list" where
  "getAccountsInOrder [] debitAccountId creditAccountId = []"
| "getAccountsInOrder (a # as) debitAccountId creditAccountId =
     (if acc_id a = debitAccountId \<or> acc_id a = creditAccountId
      then \<lparr>v_id = acc_id a, v_balance = acc_balance a, v_balance_before = acc_balance a,
             v_currency = toUpperCase (acc_currency a)\<rparr>
           # getAccountsInOrder as debitAccountId creditAccountId
      else getAccountsInOrder as debitAccountId creditAccountId)"

text \<open>
  The entry that \<open>getAccountsInOrder\<close> builds from an input account, named so that
  properties of the account list can be stated.
\<close>

definition toView :: "account \<Rightarrow> account_view" where
  "toView a = \<lparr>v_id = acc_id a, v_balance = acc_balance a, v_balance_before = acc_balance a,
               v_currency = toUpperCase (acc_currency a)\<rparr>"

section \<open>The transaction pipeline\<close>

datatype status = failed | pending | successful

definition TRANSACTION_SUCCESSFUL :: string where
  "TRANSACTION_SUCCESSFUL = ''Transaction executed successfully''"

definition TRANSACTION_PENDING :: string where
  "TRANSACTION_PENDING = ''Transaction scheduled for future execution''"

definition INVALID_AMOUNT :: string where
  "INVALID_AMOUNT = ''Invalid amount. Amount must be a positive integer''"

definition CURRENCY_MISMATCH :: string where
  "CURRENCY_MISMATCH = ''Account currency mismatch. Both accounts must have the same currency''"

definition UNSUPPORTED_CURRENCY :: string where
  "UNSUPPORTED_CURRENCY = ''Unsupported currency. Only NGN, USD, GBP, and GHS are supported''"

definition INSUFFICIENT_FUNDS :: string where
  "INSUFFICIENT_FUNDS = ''Insufficient funds in debit account''"

definition SAME_ACCOUNT_ERROR :: string where
  "SAME_ACCOUNT_ERROR = ''Debit and credit accounts cannot be the same''"

definition ACCOUNT_NOT_FOUND :: string where
  "ACCOUNT_NOT_FOUND = ''Account not found''"

definition MISSING_KEYWORDS :: string where
  "MISSING_KEYWORDS = ''Missing required keywords''"

definition INVALID_KEYWORD_ORDER :: string where
  "INVALID_KEYWORD_ORDER = ''Invalid keyword order''"

definition MALFORMED_INSTRUCTION :: string where
  "MALFORMED_INSTRUCTION = ''Malformed instruction: unable to parse keywords''"

definition SUPPORTED_CURRENCIES :: "string list" where
  "SUPPORTED_CURRENCIES = [''NGN'', ''USD'', ''GBP'', ''GHS'']"

record service_data =
  accounts :: "account list"
  instruction :: string

record response =
  r_type :: "txtype option"
  r_amount :: "int option"
  r_currency :: "string option"
  r_debit_account :: "string option"
  r_credit_account :: "string option"
  r_execute_by :: "string option"
  status :: status
  status_reason :: string
  status_code :: code
  r_accounts :: "account_view list"

text \<open>
  The object literal that every return after tokenization builds: type, both account
  identifiers and \<open>execute_by\<close> come from the parsed instruction, the rest is given.
\<close>

definition respond ::
  "parsed \<Rightarrow> int option \<Rightarrow> string \<Rightarrow> status \<Rightarrow> string \<Rightarrow> code \<Rightarrow> account_view list \<Rightarrow> response"
where
  "respond parsed amount currency st reason c views =
     \<lparr>r_type = Some (p_type parsed), r_amount = amount, r_currency = Some currency,
      r_debit_account = Some (p_debit_account parsed),
      r_credit_account = Some (p_credit_account parsed),
      r_execute_by = p_execute_by parsed,
      status = st, status_reason = reason, status_code = c, r_accounts = views\<rparr>"

text \<open>
  The mapping every failing and the pending return apply to \<open>accountsInOrder\<close>:
  \<open>balance_before\<close> is read from \<open>balance\<close>.
\<close>

definition unchanged :: "account_view list \<Rightarrow> account_view list" where
  "unchanged accountsInOrder =
     map (\<lambda>acc. \<lparr>v_id = v_id acc, v_balance = v_balance acc, v_balance_before = v_balance acc,
                 v_currency = v_currency acc\<rparr>) accountsInOrder"

text \<open>The mapping of immediate execution.\<close>

definition updatedAccounts ::
  "account_view list \<Rightarrow> account \<Rightarrow> account \<Rightarrow> rat \<Rightarrow> account_view list" where
  "updatedAccounts accountsInOrder debitAccount creditAccount amount =
     map (\<lambda>acc.
            let balanceBefore = v_balance acc;
                newBalance =
                  (if v_id acc = acc_id debitAccount then balanceBefore - amount
                   else if v_id acc = acc_id creditAccount then balanceBefore + amount
                   else balanceBefore)
            in \<lparr>v_id = v_id acc, v_balance = newBalance, v_balance_before = balanceBefore,
                 v_currency = v_currency acc\<rparr>) accountsInOrder"

text \<open>
  A number read where the value may be \<open>null\<close>: in a comparison and in arithmetic \<open>null\<close>
  counts as 0. (The amount is never \<open>null\<close> once its validation has passed.)
\<close>

definition toNumber :: "int option \<Rightarrow> rat" where
  "toNumber x = (case x of None \<Rightarrow> 0 | Some n \<Rightarrow> of_int n)"

text \<open>
  The service, on data that the request validator has let through. The source calls
  \<open>getAccountsInOrder\<close> with the same three arguments at every return after tokenization; the
  model names that one value \<open>accountsInOrder\<close> up front.
\<close>

definition parseInstructionService :: "platform \<Rightarrow> service_data \<Rightarrow> response" where
  "parseInstructionService pf data =
     (case parseInstruction (instruction data) of
        Inl parseError \<Rightarrow>
          \<lparr>r_type = None, r_amount = None, r_currency = None, r_debit_account = None,
           r_credit_account = None, r_execute_by = None, status = failed,
           status_reason =
             (if parseError = SY03 then MALFORMED_INSTRUCTION
              else if parseError = SY01 then MISSING_KEYWORDS else INVALID_KEYWORD_ORDER),
           status_code = parseError, r_accounts = []\<rparr>
      | Inr parsed \<Rightarrow>
          (let amountValidation = validateAmount (p_amount parsed);
               accountsInOrder =
                 getAccountsInOrder (accounts data) (p_debit_account parsed)
                   (p_credit_account parsed)
           in if \<not> valid amountValidation
              then respond parsed None (p_currency parsed) failed INVALID_AMOUNT AM01
                     (unchanged accountsInOrder)
              else
                (let amount = value amountValidation;
                     currencyUpper = toUpperCase (p_currency parsed)
                 in if currencyUpper \<notin> set SUPPORTED_CURRENCIES
                    then respond parsed amount (p_currency parsed) failed UNSUPPORTED_CURRENCY
                           CU02 (unchanged accountsInOrder)
                    else
                      (case (findAccount (accounts data) (p_debit_account parsed),
                             findAccount (accounts data) (p_credit_account parsed)) of
                         (Some debitAccount, Some creditAccount) \<Rightarrow>
                           if acc_id debitAccount = acc_id creditAccount
                           then respond parsed amount currencyUpper failed SAME_ACCOUNT_ERROR
                                  AC02 (unchanged accountsInOrder)
                           else
                             (let debitCurrency = toUpperCase (acc_currency debitAccount);
                                  creditCurrency = toUpperCase (acc_currency creditAccount)
                              in if debitCurrency \<noteq> creditCurrency
                                 then respond parsed amount currencyUpper failed
                                        CURRENCY_MISMATCH CU01 (unchanged accountsInOrder)
                                 else if currencyUpper \<noteq> debitCurrency
                                 then respond parsed amount currencyUpper failed
                                        CURRENCY_MISMATCH CU01 (unchanged accountsInOrder)
                                 else if (case p_execute_by parsed of
                                            None \<Rightarrow> False
                                          | Some d \<Rightarrow> \<not> valid (validateDate d))
                                 then respond parsed amount currencyUpper failed
                                        MALFORMED_INSTRUCTION SY03 (unchanged accountsInOrder)
                                 else
                                   (let isPending =
                                          (case p_execute_by parsed of
                                             None \<Rightarrow> False
                                           | Some d \<Rightarrow> isFutureDate pf d)
                                    in if \<not> isPending
                                          \<and> acc_balance debitAccount < toNumber amount
                                       then respond parsed amount currencyUpper failed
                                              INSUFFICIENT_FUNDS AC01
                                              (unchanged accountsInOrder)
                                       else if isPending
                                       then respond parsed amount currencyUpper pending
                                              TRANSACTION_PENDING AP01
                                              (unchanged accountsInOrder)
                                       else respond parsed amount currencyUpper successful
                                              TRANSACTION_SUCCESSFUL AP00
                                              (updatedAccounts accountsInOrder debitAccount
                                                 creditAccount (toNumber amount))))
                       | _ \<Rightarrow>
                           respond parsed amount currencyUpper failed ACCOUNT_NOT_FOUND AC03
                             (unchanged accountsInOrder)))))"

section \<open>The precedence of the specification\<close>

text \<open>
  The stages of section 4.5 of the specification after tokenization, each as a test of its own
  on the parsed instruction and the account list, none presupposing that an earlier one passed,
  paired with the code of its failure and listed in the order of the specification. They are
  written from the specification; the pipeline above is compared with them.
\<close>

definition amount_malformed :: "parsed \<Rightarrow> bool" where
  "amount_malformed p = (\<not> valid (validateAmount (p_amount p)))"

definition currency_unsupported :: "parsed \<Rightarrow> bool" where
  "currency_unsupported p = (toUpperCase (p_currency p) \<notin> set SUPPORTED_CURRENCIES)"

definition account_missing :: "account list \<Rightarrow> parsed \<Rightarrow> bool" where
  "account_missing accs p =
     (findAccount accs (p_debit_account p) = None \<or> findAccount accs (p_credit_account p) = None)"

definition same_account :: "parsed \<Rightarrow> bool" where
  "same_account p = (p_debit_account p = p_credit_account p)"

definition account_currency :: "account list \<Rightarrow> string \<Rightarrow> string option" where
  "account_currency accs i =
     (case findAccount accs i of None \<Rightarrow> None | Some a \<Rightarrow> Some (toUpperCase (acc_currency a)))"

definition currency_inconsistent :: "account list \<Rightarrow> parsed \<Rightarrow> bool" where
  "currency_inconsistent accs p =
     (account_currency accs (p_debit_account p) \<noteq> account_currency accs (p_credit_account p)
      \<or> account_currency accs (p_debit_account p) \<noteq> Some (toUpperCase (p_currency p)))"

definition date_malformed :: "parsed \<Rightarrow> bool" where
  "date_malformed p =
     (case p_execute_by p of None \<Rightarrow> False | Some d \<Rightarrow> \<not> valid (validateDate d))"

definition future_dated :: "platform \<Rightarrow> parsed \<Rightarrow> bool" where
  "future_dated pf p =
     (case p_execute_by p of None \<Rightarrow> False | Some d \<Rightarrow> isFutureDate pf d)"

definition funds_insufficient :: "platform \<Rightarrow> account list \<Rightarrow> parsed \<Rightarrow> bool" where
  "funds_insufficient pf accs p =
     (\<not> future_dated pf p
      \<and> (case findAccount accs (p_debit_account p) of
            None \<Rightarrow> False
          | Some a \<Rightarrow> acc_balance a < toNumber (value (validateAmount (p_amount p)))))"

definition stages :: "platform \<Rightarrow> account list \<Rightarrow> parsed \<Rightarrow> (bool \<times> code) list" where
  "stages pf accs p =
     [(amount_malformed p, AM01),
      (currency_unsupported p, CU02),
      (account_missing accs p, AC03),
      (same_account p, AC02),
      (currency_inconsistent accs p, CU01),
      (date_malformed p, SY03),
      (funds_insufficient pf accs p, AC01)]"

text \<open>The code of the earliest failing stage, if any stage fails.\<close>

definition earliest_failure :: "(bool \<times> code) list \<Rightarrow> code option" where
  "earliest_failure ss = map_option snd (find fst ss)"

text \<open>
  The code the specification prescribes: that of the scanner's error; else that of the earliest
  failing stage; else AP01 for a future date and AP00 otherwise.
\<close>

definition prescribed_code :: "platform \<Rightarrow> service_data \<Rightarrow> code" where
  "prescribed_code pf data =
     (case parseInstruction (instruction data) of
        Inl parseError \<Rightarrow> parseError
      | Inr p \<Rightarrow>
          (case earliest_failure (stages pf (accounts data) p) of
             Some c \<Rightarrow> c
           | None \<Rightarrow> if future_dated pf p then AP01 else AP00))"

section \<open>Properties\<close>

text \<open>
  The accounts of scenario 1 of the specification, used where a property is run on a concrete
  request, and a platform for such runs: a process in UTC at noon of 2026-11-02 that knows the
  dates 2999-01-01 and 2020-01-01.
\<close>

abbreviation scenario_accounts :: "account list" where
  "scenario_accounts \<equiv>
     [\<lparr>acc_id = ''a1'', acc_balance = 1000, acc_currency = ''NGN''\<rparr>,
      \<lparr>acc_id = ''a2'', acc_balance = 200, acc_currency = ''NGN''\<rparr>]"

abbreviation scenario_platform :: platform where
  "scenario_platform \<equiv>
     \<lparr>parseDate = map_of [(''2999-01-01'', 32472144000000), (''2020-01-01'', 1577836800000)],
      currentTime = 1793620800000, setHoursMidnight = utcMidnight\<rparr>"

subsection \<open>Reading a response\<close>

lemma status_respond [simp]: "status (respond p a c st re k vs) = st"
  by (simp add: respond_def)

lemma status_code_respond [simp]: "status_code (respond p a c st re k vs) = k"
  by (simp add: respond_def)

lemma r_accounts_respond [simp]: "r_accounts (respond p a c st re k vs) = vs"
  by (simp add: respond_def)

lemma r_amount_respond [simp]: "r_amount (respond p a c st re k vs) = a"
  by (simp add: respond_def)

lemma r_debit_account_respond [simp]:
  "r_debit_account (respond p a c st re k vs) = Some (p_debit_account p)"
  by (simp add: respond_def)

lemma r_credit_account_respond [simp]:
  "r_credit_account (respond p a c st re k vs) = Some (p_credit_account p)"
  by (simp add: respond_def)

subsection \<open>The account view and the outcomes of the service\<close>

lemma getAccountsInOrder_filter:
  "getAccountsInOrder accs d c = map toView (filter (\<lambda>a. acc_id a = d \<or> acc_id a = c) accs)"
  by (induction accs) (simp_all add: toView_def)

lemma unchanged_toView [simp]: "unchanged (map toView xs) = map toView xs"
  by (simp add: unchanged_def toView_def)

lemma validateAmount_valid:
  "valid (validateAmount s) \<Longrightarrow> \<exists>n. 0 < n \<and> value (validateAmount s) = Some n"
  by (auto simp: validateAmount_def split: if_splits option.splits)

text \<open>The outcomes of the service, one per return of the source.\<close>

lemma service_outcomes [case_names scanner failure pending successful]:
  fixes pf data
  defines "r \<equiv> parseInstructionService pf data"
  obtains
    (scanner) e where "parseInstruction (instruction data) = Inl e"
      "status r = failed" "status_code r = e" "r_accounts r = []"
  | (failure) p where "parseInstruction (instruction data) = Inr p"
      "status r = failed" "status_code r \<in> {AM01, CU02, AC03, AC02, CU01, SY03, AC01}"
      "r_accounts r = getAccountsInOrder (accounts data) (p_debit_account p) (p_credit_account p)"
  | (pending) p where "parseInstruction (instruction data) = Inr p"
      "status r = pending" "status_code r = AP01"
      "r_accounts r = getAccountsInOrder (accounts data) (p_debit_account p) (p_credit_account p)"
  | (successful) p n da ca where "parseInstruction (instruction data) = Inr p"
      "status r = successful" "status_code r = AP00"
      "value (validateAmount (p_amount p)) = Some n" "0 < n" "r_amount r = Some n"
      "r_debit_account r = Some (p_debit_account p)"
      "r_credit_account r = Some (p_credit_account p)"
      "findAccount (accounts data) (p_debit_account p) = Some da"
      "findAccount (accounts data) (p_credit_account p) = Some ca"
      "acc_id da \<noteq> acc_id ca"
      "r_accounts r = updatedAccounts
         (getAccountsInOrder (accounts data) (p_debit_account p) (p_credit_account p))
         da ca (of_int n)"
proof (cases "parseInstruction (instruction data)")
  case (Inl e)
  then show ?thesis
    by (intro scanner [of e]) (simp_all add: r_def parseInstructionService_def)
next
  case (Inr p)
  note [simp] = r_def parseInstructionService_def Let_def getAccountsInOrder_filter
  show ?thesis
  proof (cases "valid (validateAmount (p_amount p))")
    case False
    with Inr show ?thesis by (intro failure [of p]) simp_all
  next
    case v: True
    then obtain n where n: "0 < n" "value (validateAmount (p_amount p)) = Some n"
      using validateAmount_valid by blast
    show ?thesis
    proof (cases "toUpperCase (p_currency p) \<in> set SUPPORTED_CURRENCIES")
      case False
      with Inr v show ?thesis by (intro failure [of p]) simp_all
    next
      case cu: True
      show ?thesis
      proof (cases "findAccount (accounts data) (p_debit_account p)")
        case None
        with Inr v cu show ?thesis by (intro failure [of p]) simp_all
      next
        case da: (Some da)
        show ?thesis
        proof (cases "findAccount (accounts data) (p_credit_account p)")
          case None
          with Inr v cu da show ?thesis by (intro failure [of p]) simp_all
        next
          case ca: (Some ca)
          show ?thesis
          proof (cases "status r = failed")
            case True
            with Inr v cu da ca show ?thesis
              by (intro failure [of p]) (simp_all split: if_splits)
          next
            case nf: False
            show ?thesis
            proof (cases "status r = pending")
              case True
              with Inr v cu da ca show ?thesis
                by (intro pending [of p]) (simp_all split: if_splits)
            next
              case False
              with nf have s: "status r = successful" by (cases "status r") simp_all
              with Inr v cu da ca n show ?thesis
                by (intro successful [of p n da ca])
                   (simp_all add: toNumber_def split: if_splits)
            qed
          qed
        qed
      qed
    qed
  qed
qed

subsection \<open>The resolver\<close>

lemma findAccount_Some: "findAccount accs i = Some a \<Longrightarrow> a \<in> set accs \<and> acc_id a = i"
  by (induction accs) (auto split: if_splits)




lemma filter_swap:
  "filter (\<lambda>a. acc_id a = d \<or> acc_id a = c) accs = filter (\<lambda>a. acc_id a = c \<or> acc_id a = d) accs"
  by (rule filter_cong) auto


lemma same_account_found:
  "findAccount accs d = Some da \<Longrightarrow> findAccount accs c = Some ca
   \<Longrightarrow> (acc_id da = acc_id ca) = (d = c)"
  by (auto dest: findAccount_Some)

lemma ids_toView:
  "map (\<lambda>v. (v_id v, v_balance_before v, v_currency v)) (map toView xs)
   = map (\<lambda>a. (acc_id a, acc_balance a, toUpperCase (acc_currency a))) xs"
  by (simp add: toView_def)

lemma ids_updatedAccounts:
  "map (\<lambda>v. (v_id v, v_balance_before v, v_currency v)) (updatedAccounts (map toView xs) da ca n)
   = map (\<lambda>a. (acc_id a, acc_balance a, toUpperCase (acc_currency a))) xs"
  by (simp add: updatedAccounts_def toView_def Let_def)

subsection \<open>Searching a string\<close>

lemma indexOfFrom_result:
  "indexOfFrom p i s = - 1
   \<or> (\<exists>k\<le>length s. indexOfFrom p i s = int (i + k) \<and> prefix p (drop k s)
         \<and> (\<forall>j<k. \<not> prefix p (drop j s)))"
proof (induction s arbitrary: i)
  case Nil
  then show ?case by auto
next
  case (Cons c cs)
  show ?case
  proof (cases "prefix p (c # cs)")
    case True
    then have "indexOfFrom p i (c # cs) = int (i + 0) \<and> prefix p (drop 0 (c # cs))
        \<and> (\<forall>j<0::nat. \<not> prefix p (drop j (c # cs)))" by simp
    then show ?thesis by blast
  next
    case False
    from Cons [of "Suc i"] show ?thesis
    proof
      assume "indexOfFrom p (Suc i) cs = - 1"
      with False show ?thesis by simp
    next
      assume "\<exists>k\<le>length cs. indexOfFrom p (Suc i) cs = int (Suc i + k) \<and> prefix p (drop k cs)
         \<and> (\<forall>j<k. \<not> prefix p (drop j cs))"
      then obtain k where k: "k \<le> length cs" "indexOfFrom p (Suc i) cs = int (Suc i + k)"
        "prefix p (drop k cs)" "\<forall>j<k. \<not> prefix p (drop j cs)" by blast
      have "\<forall>j<Suc k. \<not> prefix p (drop j (c # cs))"
      proof (intro allI impI)
        fix j assume "j < Suc k"
        then show "\<not> prefix p (drop j (c # cs))"
          using False k(4) by (cases j) auto
      qed
      with k False have "Suc k \<le> length (c # cs) \<and> indexOfFrom p i (c # cs) = int (i + Suc k)
        \<and> prefix p (drop (Suc k) (c # cs)) \<and> (\<forall>j<Suc k. \<not> prefix p (drop j (c # cs)))"
        by simp
      then show ?thesis by blast
    qed
  qed
qed

lemma indexOfFrom_absent:
  "indexOfFrom p i s = - 1 \<Longrightarrow> k \<le> length s \<Longrightarrow> \<not> prefix p (drop k s)"
proof (induction s arbitrary: i k)
  case Nil
  then show ?case by (auto split: if_splits)
next
  case (Cons c cs)
  from Cons.prems(1) have np: "\<not> prefix p (c # cs)" and r: "indexOfFrom p (Suc i) cs = - 1"
    by (auto split: if_splits)
  show ?case
  proof (cases k)
    case 0
    with np show ?thesis by simp
  next
    case (Suc k')
    with Cons.prems(2) have "k' \<le> length cs" by simp
    from Cons.IH [OF r this] Suc show ?thesis by simp
  qed
qed

text \<open>\<open>indexOf\<close> is the position of the first occurrence.\<close>

lemma indexOf_absent:
  "indexOf s p = - 1 \<Longrightarrow> k \<le> length s \<Longrightarrow> \<not> prefix p (drop k s)"
  unfolding indexOf_def by (rule indexOfFrom_absent)

lemma indexOf_found:
  assumes "indexOf s p \<noteq> - 1"
  obtains k where "indexOf s p = int k" "k \<le> length s" "prefix p (drop k s)"
    "\<forall>j<k. \<not> prefix p (drop j s)"
  using assms indexOfFrom_result [of p 0 s] unfolding indexOf_def by auto

lemma indexOf_present:
  "k \<le> length s \<Longrightarrow> prefix p (drop k s) \<Longrightarrow> indexOf s p \<noteq> - 1"
  using indexOf_absent by blast

lemma indexOf_first:
  assumes "k \<le> length s" "prefix p (drop k s)" "\<forall>j<k. \<not> prefix p (drop j s)"
  shows "indexOf s p = int k"
proof -
  from assms(1,2) have "indexOf s p \<noteq> - 1" by (rule indexOf_present)
  then obtain k' where k': "indexOf s p = int k'" "k' \<le> length s" "prefix p (drop k' s)"
    "\<forall>j<k'. \<not> prefix p (drop j s)" by (rule indexOf_found)
  with assms have "\<not> k' < k" "\<not> k < k'" by blast+
  then show ?thesis using k'(1) by simp
qed

lemma indexOf_lower_bound:
  assumes "indexOf s p \<noteq> - 1" "\<forall>j<k. \<not> prefix p (drop j s)"
  shows "int k \<le> indexOf s p"
proof -
  from assms(1) obtain k' where k': "indexOf s p = int k'" "prefix p (drop k' s)"
    by (rule indexOf_found)
  with assms(2) have "\<not> k' < k" by blast
  with k'(1) show ?thesis by simp
qed

lemma indexOf_upper_bound:
  assumes "k \<le> length s" "prefix p (drop k s)"
  shows "indexOf s p \<le> int k"
proof -
  from assms have "indexOf s p \<noteq> - 1" by (rule indexOf_present)
  then obtain k' where k': "indexOf s p = int k'" "\<forall>j<k'. \<not> prefix p (drop j s)"
    by (rule indexOf_found)
  with assms(2) have "\<not> k < k'" by blast
  with k'(1) show ?thesis by simp
qed

subsection \<open>Positions and substrings\<close>

lemma charAt_eq: "i < length s \<Longrightarrow> (charAt s i = [c]) = (s ! i = c)"
  by (simp add: charAt_def)

lemma substring_take_drop:
  "a \<le> b \<Longrightarrow> b \<le> length s \<Longrightarrow> substring s (int a) (int b) = take (b - a) (drop a s)"
  by (simp add: substring_def clampIndex_def Let_def min_def max_def)

subsection \<open>Identifiers are lower case\<close>









subsection \<open>Characters of an amount token\<close>

lemma indexOfFrom_char: "(indexOfFrom [c] i s = - 1) = (c \<notin> set s)"
  by (induction s arbitrary: i) auto

lemma indexOf_char: "(indexOf s [c] \<noteq> - 1) = (c \<in> set s)"
  by (simp add: indexOf_def indexOfFrom_char)

subsection \<open>Reading and printing decimal digits\<close>

lemma of_char_int_bounds: "0 \<le> (of_char c :: int) \<and> (of_char c :: int) < 256"
proof -
  have "(of_char c :: int) = int (of_char c)" by (simp add: of_nat_of_char)
  moreover have "(of_char c :: nat) < 256" by simp
  ultimately show ?thesis by simp
qed

lemma digitChar_digitValue: "isDigit c \<Longrightarrow> digitChar (digitValue c) = c"
  by (simp add: digitChar_def digitValue_def isDigit_def)

lemma digitValue_range: "isDigit c \<Longrightarrow> 0 \<le> digitValue c \<and> digitValue c \<le> 9"
  by (simp add: digitValue_def isDigit_def)

lemma isDigit_digitChar: "0 \<le> d \<Longrightarrow> d \<le> 9 \<Longrightarrow> isDigit (digitChar d)"
  by (simp add: digitChar_def isDigit_def)

lemma digitValue_digitChar: "0 \<le> d \<Longrightarrow> d \<le> 9 \<Longrightarrow> digitValue (digitChar d) = d"
  by (simp add: digitChar_def digitValue_def)

lemma digitValue_zero: "(digitValue c = 0) = (c = CHR ''0'')"
proof
  assume "digitValue c = 0"
  then have "(of_char c :: int) = of_char CHR ''0''" by (simp add: digitValue_def)
  then show "c = CHR ''0''" by (simp only: of_char_eq_iff)
next
  assume "c = CHR ''0''"
  then show "digitValue c = 0" by (simp add: digitValue_def)
qed

lemma digit_not_special:
  assumes "isDigit c"
  shows "\<not> isWhiteSpace c" "c \<noteq> CHR ''-''" "c \<noteq> CHR ''+''" "c \<noteq> CHR ''.''"
  using assms by (auto simp: isDigit_def isWhiteSpace_def)

lemma digitsValue_snoc: "digitsValue (ds @ [c]) = 10 * digitsValue ds + digitValue c"
  by (simp add: digitsValue_def)

lemma digitsValue_nonneg: "\<forall>c\<in>set ds. isDigit c \<Longrightarrow> 0 \<le> digitsValue ds"
proof (induction ds rule: rev_induct)
  case Nil
  then show ?case by (simp add: digitsValue_def)
next
  case (snoc c ds)
  then have "0 \<le> digitsValue ds" "0 \<le> digitValue c" by (simp_all add: digitValue_range)
  then show ?case by (simp add: digitsValue_snoc)
qed

lemma digitsOf_step:
  assumes "0 < v" "0 \<le> d" "d \<le> 9"
  shows "digitsOf (10 * v + d) = digitsOf v @ [digitChar d]"
proof -
  from assms have "\<not> 10 * v + d < 10" "(10 * v + d) div 10 = v" "(10 * v + d) mod 10 = d"
    by auto
  then show ?thesis by (subst digitsOf.simps) simp
qed

text \<open>Printing undoes reading on a run of digits without a leading zero.\<close>

lemma digitsOf_digitsValue:
  assumes "ds \<noteq> []" "\<forall>c\<in>set ds. isDigit c" "hd ds \<noteq> CHR ''0''"
  shows "0 < digitsValue ds \<and> digitsOf (digitsValue ds) = ds"
  using assms
proof (induction ds rule: rev_induct)
  case Nil
  then show ?case by simp
next
  case (snoc c ds)
  from snoc.prems have c: "isDigit c" by simp
  note r = digitValue_range [OF c]
  show ?case
  proof (cases "ds = []")
    case True
    with snoc.prems c have "digitValue c \<noteq> 0" by (simp add: digitValue_zero)
    with r have pos: "0 < digitValue c" by simp
    from r have "digitsOf (digitValue c) = [digitChar (digitValue c)]"
      by (subst digitsOf.simps) simp
    with True pos c show ?thesis
      by (simp add: digitsValue_def digitChar_digitValue)
  next
    case False
    with snoc have ih: "0 < digitsValue ds" "digitsOf (digitsValue ds) = ds" by simp_all
    from digitsOf_step [OF ih(1) r [THEN conjunct1] r [THEN conjunct2]] ih r c
    show ?thesis by (simp add: digitsValue_snoc digitChar_digitValue)
  qed
qed

text \<open>What printing produces: digits, without a leading zero for a positive number.\<close>

lemma digitsOf_digits:
  "0 \<le> n \<Longrightarrow> digitsOf n \<noteq> [] \<and> (\<forall>c\<in>set (digitsOf n). isDigit c)
     \<and> (0 < n \<longrightarrow> hd (digitsOf n) \<noteq> CHR ''0'')"
proof (induction n rule: digitsOf.induct)
  case (1 n)
  show ?case
  proof (cases "n < 10")
    case True
    with 1(2) have d: "isDigit (digitChar n)" by (simp add: isDigit_digitChar)
    have "0 < n \<longrightarrow> digitChar n \<noteq> CHR ''0''"
    proof
      assume "0 < n"
      with True have "digitValue (digitChar n) = n" by (simp add: digitValue_digitChar)
      with \<open>0 < n\<close> d show "digitChar n \<noteq> CHR ''0''"
        using digitValue_zero [of "digitChar n"] by auto
    qed
    with True d show ?thesis by (subst (1 2 3) digitsOf.simps) simp
  next
    case False
    then have "0 \<le> n div 10" "0 < n div 10" by simp_all
    with 1(1) [OF False] have ih: "digitsOf (n div 10) \<noteq> []"
      "\<forall>c\<in>set (digitsOf (n div 10)). isDigit c" "hd (digitsOf (n div 10)) \<noteq> CHR ''0''"
      by simp_all
    have "isDigit (digitChar (n mod 10))" by (simp add: isDigit_digitChar)
    with False ih show ?thesis by (subst (1 2 3) digitsOf.simps) simp
  qed
qed

lemma parseInt_digits:
  assumes "ds \<noteq> []" "\<forall>c\<in>set ds. isDigit c"
  shows "parseInt ds = Some (digitsValue ds)"
proof -
  from assms obtain c cs where ds: "ds = c # cs" by (cases ds) auto
  with assms(2) have c: "isDigit c" by simp
  note s = digit_not_special [OF c]
  from ds s(1) have w: "dropWhile isWhiteSpace ds = ds" by simp
  from assms(2) have t: "takeWhile isDigit ds = ds" by (simp add: takeWhile_eq_all_conv)
  show ?thesis
    unfolding parseInt_def w Let_def using s(2,3) t assms(1) by (simp add: ds)
qed

text \<open>
  The tokens \<open>validateAmount\<close> accepts are the runs of decimal digits without a leading zero.
  (Stated for tokens of at most 15 characters, whose values lie below \<open>2 ^ 53\<close>.)
\<close>

lemma validateAmount_canonical:
  assumes "length s \<le> 15"
  shows "valid (validateAmount s)
         \<longleftrightarrow> s \<noteq> [] \<and> (\<forall>c\<in>set s. isDigit c) \<and> hd s \<noteq> CHR ''0''"
proof
  assume "valid (validateAmount s)"
  then obtain n where "parseInt s = Some n"
    by (cases "parseInt s") (auto simp: validateAmount_def split: if_splits)
  with \<open>valid (validateAmount s)\<close> have n: "0 < n" "toString n = s"
    by (auto simp: validateAmount_def split: if_splits)
  then have "s = digitsOf n" by (simp add: toString_def)
  with digitsOf_digits [of n] n(1) show "s \<noteq> [] \<and> (\<forall>c\<in>set s. isDigit c) \<and> hd s \<noteq> CHR ''0''"
    by simp
next
  assume a: "s \<noteq> [] \<and> (\<forall>c\<in>set s. isDigit c) \<and> hd s \<noteq> CHR ''0''"
  then have p: "parseInt s = Some (digitsValue s)" by (simp add: parseInt_digits)
  from a have r: "0 < digitsValue s" "digitsOf (digitsValue s) = s"
    using digitsOf_digitsValue [of s] by simp_all
  have "CHR ''-'' \<notin> set s"
  proof
    assume "CHR ''-'' \<in> set s"
    with a have "isDigit CHR ''-''" by blast
    from digit_not_special(2) [OF this] show False by simp
  qed
  moreover have "CHR ''.'' \<notin> set s"
  proof
    assume "CHR ''.'' \<in> set s"
    with a have "isDigit CHR ''.''" by blast
    from digit_not_special(4) [OF this] show False by simp
  qed
  ultimately have "CHR ''-'' \<notin> set s" "CHR ''.'' \<notin> set s" .
  with a p r show "valid (validateAmount s)"
    by (simp add: validateAmount_def indexOf_char toString_def)
qed

subsection \<open>What the date validator tests\<close>

lemma validateDate_unfold:
  "validateDate s =
     (if length s = 10 \<and> s ! 4 = CHR ''-'' \<and> s ! 7 = CHR ''-''
         \<and> (\<exists>y m d. parseInt (take 4 s) = Some y \<and> parseInt (take 2 (drop 5 s)) = Some m
                \<and> parseInt (take 2 (drop 8 s)) = Some d
                \<and> 1 \<le> m \<and> m \<le> 12 \<and> 1 \<le> d \<and> d \<le> 31)
      then \<lparr>valid = True, value = Some s\<rparr>
      else \<lparr>valid = False, value = None\<rparr>)"
proof (cases "length s = 10")
  case False
  then show ?thesis by (simp add: validateDate_def)
next
  case True
  then have sub: "substring s 0 4 = take 4 s" "substring s 5 7 = take 2 (drop 5 s)"
    "substring s 8 10 = take 2 (drop 8 s)"
    using substring_take_drop [of 0 4 s] substring_take_drop [of 5 7 s]
      substring_take_drop [of 8 10 s] by simp_all
  from True have ch: "(charAt s 4 = ''-'') = (s ! 4 = CHR ''-'')"
    "(charAt s 7 = ''-'') = (s ! 7 = CHR ''-'')"
    by (simp_all add: charAt_eq)
  from True have ne: "s \<noteq> []" by auto
  show ?thesis
    unfolding validateDate_def sub ch using True ne
    by (auto split: option.splits)
qed

text \<open>
  On a token made of four, two and two decimal digits around two dashes, the validator decides
  on the numbers of the month and the day alone.
\<close>

lemma validateDate_digits:
  assumes "length y = 4" "length m = 2" "length d = 2" "\<forall>c\<in>set (y @ m @ d). isDigit c"
  shows "valid (validateDate (y @ ''-'' @ m @ ''-'' @ d))
         \<longleftrightarrow> 1 \<le> digitsValue m \<and> digitsValue m \<le> 12
             \<and> 1 \<le> digitsValue d \<and> digitsValue d \<le> 31"
proof -
  let ?s = "y @ ''-'' @ m @ ''-'' @ d"
  from assms have l: "length ?s = 10" by simp
  from assms have dash: "?s ! 4 = CHR ''-''" "?s ! 7 = CHR ''-''"
    by (simp_all add: nth_append)
  from assms have parts: "take 4 ?s = y" "take 2 (drop 5 ?s) = m" "take 2 (drop 8 ?s) = d"
    by simp_all
  from assms have ne: "y \<noteq> []" "m \<noteq> []" "d \<noteq> []" by auto
  from assms(4) have dg: "\<forall>c\<in>set y. isDigit c" "\<forall>c\<in>set m. isDigit c" "\<forall>c\<in>set d. isDigit c"
    by auto
  have p: "parseInt y = Some (digitsValue y)" "parseInt m = Some (digitsValue m)"
    "parseInt d = Some (digitsValue d)"
    using ne dg by (simp_all add: parseInt_digits)
  show ?thesis
    by (subst validateDate_unfold) (simp only: l dash parts p, simp)
qed

subsection \<open>No mutation on failure or pending\<close>

text \<open>
  C2: whenever the result has status failed or pending, every entry of the output accounts has
  \<open>balance_before\<close> equal to \<open>balance\<close>.
\<close>

theorem no_mutation_unless_successful:
  assumes "status (parseInstructionService pf data) = failed
           \<or> status (parseInstructionService pf data) = pending"
  shows "\<forall>v \<in> set (r_accounts (parseInstructionService pf data)).
           v_balance_before v = v_balance v"
proof (cases rule: service_outcomes [of data pf])
  case (scanner e)
  then show ?thesis by simp
next
  case (failure p)
  then show ?thesis by (simp add: getAccountsInOrder_filter toView_def)
next
  case (pending p)
  then show ?thesis by (simp add: getAccountsInOrder_filter toView_def)
next
  case (successful p n da ca)
  with assms show ?thesis by simp
qed

theorem no_mutation_unless_successful_witness:
  "status (parseInstructionService scenario_platform
      \<lparr>accounts = scenario_accounts,
       instruction = ''debit 500 NGN from account a1 for credit to account a2 on 2999-01-01''\<rparr>)
     = pending
   \<and> map v_balance_before (r_accounts (parseInstructionService scenario_platform
      \<lparr>accounts = scenario_accounts,
       instruction = ''debit 500 NGN from account a1 for credit to account a2 on 2999-01-01''\<rparr>))
     = map v_balance (r_accounts (parseInstructionService scenario_platform
      \<lparr>accounts = scenario_accounts,
       instruction = ''debit 500 NGN from account a1 for credit to account a2 on 2999-01-01''\<rparr>))
   \<and> length (r_accounts (parseInstructionService scenario_platform
      \<lparr>accounts = scenario_accounts,
       instruction = ''debit 500 NGN from account a1 for credit to account a2 on 2999-01-01''\<rparr>))
     = 2"
  (is "?st = pending \<and> map v_balance_before ?vs = map v_balance ?vs \<and> length ?vs = 2")
proof -
  have h: "?st = pending" by code_simp
  have l: "length ?vs = 2" by code_simp
  from no_mutation_unless_successful [OF disjI2 [OF h]]
  have "map v_balance_before ?vs = map v_balance ?vs" by simp
  with h l show ?thesis by simp
qed

subsection \<open>Balance conservation on success\<close>



subsection \<open>Syntax errors and the account list\<close>

text \<open>
  C5 as stated fails: a malformed date is reported as SY03 after both accounts have been
  resolved, and the response carries them.
\<close>

theorem syntax_code_accounts_counterexample:
  "status_code (parseInstructionService scenario_platform
      \<lparr>accounts = scenario_accounts,
       instruction = ''debit 500 NGN from account a1 for credit to account a2 on tomorrow''\<rparr>)
     = SY03
   \<and> r_accounts (parseInstructionService scenario_platform
      \<lparr>accounts = scenario_accounts,
       instruction = ''debit 500 NGN from account a1 for credit to account a2 on tomorrow''\<rparr>)
     = [\<lparr>v_id = ''a1'', v_balance = 1000, v_balance_before = 1000, v_currency = ''NGN''\<rparr>,
        \<lparr>v_id = ''a2'', v_balance = 200, v_balance_before = 200, v_currency = ''NGN''\<rparr>]"
  by code_simp

text \<open>
  C5, amended: when the status code is SY01 or SY02, or is SY03 and was raised by the keyword
  scanner, the output accounts list is empty.
\<close>

theorem scanner_error_accounts_empty:
  assumes "status_code (parseInstructionService pf data) = SY01
           \<or> status_code (parseInstructionService pf data) = SY02
           \<or> (status_code (parseInstructionService pf data) = SY03
               \<and> parseInstruction (instruction data) = Inl SY03)"
  shows "r_accounts (parseInstructionService pf data) = []"
proof (cases rule: service_outcomes [of data pf])
  case (scanner e)
  then show ?thesis by simp
next
  case (failure p)
  with assms show ?thesis by auto
next
  case (pending p)
  with assms show ?thesis by auto
next
  case (successful p n da ca)
  with assms show ?thesis by auto
qed

theorem scanner_error_accounts_empty_witness:
  "status_code (parseInstructionService scenario_platform
      \<lparr>accounts = scenario_accounts, instruction = ''please move money''\<rparr>) = SY03
   \<and> parseInstruction ''please move money'' = Inl SY03
   \<and> r_accounts (parseInstructionService scenario_platform
      \<lparr>accounts = scenario_accounts, instruction = ''please move money''\<rparr>) = []"
  (is "?c = SY03 \<and> ?p \<and> ?vs = []")
proof -
  have c: "?c = SY03" by code_simp
  have p: "?p" by code_simp
  from c p have "?c = SY01 \<or> ?c = SY02
      \<or> (?c = SY03 \<and> parseInstruction (instruction
            \<lparr>accounts = scenario_accounts, instruction = ''please move money''\<rparr>) = Inl SY03)"
    by simp
  from scanner_error_accounts_empty [OF this] c p show ?thesis by simp
qed

subsection \<open>The order of the checks\<close>

text \<open>
  C3: the status code of every response is the one the precedence of the specification
  prescribes: the scanner's error code if tokenization fails; otherwise the code of the earliest
  failing stage in the order amount (AM01), currency support (CU02), account existence (AC03),
  account distinctness (AC02), currency consistency (CU01), date validity (SY03), funds
  sufficiency (AC01), however many of the later stages fail as well.
\<close>

theorem earliest_failing_stage_wins:
  "status_code (parseInstructionService pf data) = prescribed_code pf data"
proof (cases "parseInstruction (instruction data)")
  case (Inl e)
  then show ?thesis by (simp add: parseInstructionService_def prescribed_code_def)
next
  case (Inr p)
  note [simp] = parseInstructionService_def prescribed_code_def Let_def stages_def
    earliest_failure_def amount_malformed_def currency_unsupported_def
  show ?thesis
  proof (cases "amount_malformed p")
    case True
    with Inr show ?thesis by simp
  next
    case am: False
    show ?thesis
    proof (cases "currency_unsupported p")
      case True
      with Inr am show ?thesis by simp
    next
      case cu: False
      show ?thesis
      proof (cases "account_missing (accounts data) p")
        case True
        with Inr am cu show ?thesis
          by (auto simp: account_missing_def split: option.splits)
      next
        case False
        then obtain da ca where
          f: "findAccount (accounts data) (p_debit_account p) = Some da"
             "findAccount (accounts data) (p_credit_account p) = Some ca"
          by (auto simp: account_missing_def)
        note same = same_account_found [OF f]
        from Inr am cu f same show ?thesis
          by (simp add: account_missing_def same_account_def currency_inconsistent_def
              account_currency_def date_malformed_def funds_insufficient_def future_dated_def
              split: option.splits)
      qed
    qed
  qed
qed

theorem earliest_failing_stage_wins_witness:
  "stages scenario_platform scenario_accounts
      \<lparr>p_type = DEBIT, p_amount = ''007'', p_currency = ''XYZ'', p_debit_account = ''a9'',
       p_credit_account = ''a9'', p_execute_by = Some ''someday''\<rparr>
     = [(True, AM01), (True, CU02), (True, AC03), (True, AC02), (True, CU01), (True, SY03),
        (False, AC01)]
   \<and> parseInstruction ''debit 007 xyz from account a9 for credit to account a9 on someday''
     = Inr \<lparr>p_type = DEBIT, p_amount = ''007'', p_currency = ''XYZ'', p_debit_account = ''a9'',
            p_credit_account = ''a9'', p_execute_by = Some ''someday''\<rparr>
   \<and> status_code (parseInstructionService scenario_platform
        \<lparr>accounts = scenario_accounts,
         instruction = ''debit 007 xyz from account a9 for credit to account a9 on someday''\<rparr>)
     = AM01"
  (is "?s \<and> ?p \<and> ?c = AM01")
proof -
  have s: "?s" by code_simp
  have p: "?p" by code_simp
  have "prescribed_code scenario_platform
        \<lparr>accounts = scenario_accounts,
         instruction = ''debit 007 xyz from account a9 for credit to account a9 on someday''\<rparr>
        = AM01"
    by code_simp
  with earliest_failing_stage_wins [of scenario_platform "\<lparr>accounts = scenario_accounts,
         instruction = ''debit 007 xyz from account a9 for credit to account a9 on someday''\<rparr>"]
  have "?c = AM01" by simp
  with s p show ?thesis by simp
qed

subsection \<open>Future dates and the funds check\<close>



subsection \<open>Account order\<close>

text \<open>
  C7: the output accounts are the input accounts whose id is the parsed debit or credit
  identifier, each with its input balance as \<open>balance_before\<close> and its currency in upper case,
  in the order of the input list (none when tokenization fails); and the resolver's result does
  not depend on which of the two identifiers is the debit one.
\<close>

theorem accounts_in_request_order:
  "map (\<lambda>v. (v_id v, v_balance_before v, v_currency v))
       (r_accounts (parseInstructionService pf data))
   = (case parseInstruction (instruction data) of
        Inl parseError \<Rightarrow> []
      | Inr p \<Rightarrow>
          map (\<lambda>a. (acc_id a, acc_balance a, toUpperCase (acc_currency a)))
            (filter (\<lambda>a. acc_id a = p_debit_account p \<or> acc_id a = p_credit_account p)
               (accounts data)))
   \<and> getAccountsInOrder (accounts data) x y = getAccountsInOrder (accounts data) y x"
proof
  show "getAccountsInOrder (accounts data) x y = getAccountsInOrder (accounts data) y x"
    by (simp add: getAccountsInOrder_filter filter_swap [of x y])
  show "map (\<lambda>v. (v_id v, v_balance_before v, v_currency v))
       (r_accounts (parseInstructionService pf data))
   = (case parseInstruction (instruction data) of
        Inl parseError \<Rightarrow> []
      | Inr p \<Rightarrow>
          map (\<lambda>a. (acc_id a, acc_balance a, toUpperCase (acc_currency a)))
            (filter (\<lambda>a. acc_id a = p_debit_account p \<or> acc_id a = p_credit_account p)
               (accounts data)))"
  proof (cases rule: service_outcomes [of data pf])
    case (scanner e)
    then show ?thesis by simp
  next
    case (failure p)
    then show ?thesis by (simp only: sum.case getAccountsInOrder_filter ids_toView)
  next
    case (pending p)
    then show ?thesis by (simp only: sum.case getAccountsInOrder_filter ids_toView)
  next
    case (successful p n da ca)
    then show ?thesis by (simp only: sum.case getAccountsInOrder_filter ids_updatedAccounts)
  qed
qed

theorem accounts_in_request_order_witness:
  "map v_id (r_accounts (parseInstructionService scenario_platform
      \<lparr>accounts = [\<lparr>acc_id = ''x'', acc_balance = 10, acc_currency = ''USD''\<rparr>,
                   \<lparr>acc_id = ''y'', acc_balance = 20, acc_currency = ''USD''\<rparr>,
                   \<lparr>acc_id = ''z'', acc_balance = 30, acc_currency = ''USD''\<rparr>],
       instruction = ''debit 5 USD from account y for credit to account x''\<rparr>))
   = [''x'', ''y'']"
  (is "map v_id (r_accounts (parseInstructionService scenario_platform ?D)) = _")
proof -
  have p: "parseInstruction ''debit 5 USD from account y for credit to account x''
     = Inr \<lparr>p_type = DEBIT, p_amount = ''5'', p_currency = ''USD'', p_debit_account = ''y'',
            p_credit_account = ''x'', p_execute_by = None\<rparr>" by code_simp
  from accounts_in_request_order [of scenario_platform ?D, THEN conjunct1]
  have "map (\<lambda>v. (v_id v, v_balance_before v, v_currency v))
          (r_accounts (parseInstructionService scenario_platform ?D))
        = [(''x'', 10, toUpperCase ''USD''), (''y'', 20, toUpperCase ''USD'')]"
    by (simp add: p)
  then have "map fst (map (\<lambda>v. (v_id v, v_balance_before v, v_currency v))
          (r_accounts (parseInstructionService scenario_platform ?D))) = [''x'', ''y'']"
    by simp
  then show ?thesis by (simp add: comp_def)
qed

subsection \<open>Swapped anchors\<close>

text \<open>
  C8: when the normalized instruction starts with \<open>debit\<close>, both required anchors occur in it,
  and no \<open>from account\<close> starts before an occurrence of \<open>for credit to account\<close> (so that
  the first \<open>from account\<close> is at or after the first \<open>for credit to account\<close>), the parser
  returns the error SY02.
\<close>

theorem swapped_anchors_SY02:
  fixes instruction
  defines "normalized \<equiv> trim (toLowerCase instruction)"
  assumes debit: "startsWith normalized ''debit''"
    and credit_at: "j \<le> length normalized" "prefix ''for credit to account'' (drop j normalized)"
    and from_at: "i \<le> length normalized" "prefix ''from account'' (drop i normalized)"
    and none_before: "\<forall>k<j. \<not> prefix ''from account'' (drop k normalized)"
  shows "parseInstruction instruction = Inl SY02"
proof -
  have fa: "indexOf normalized ''from account'' \<noteq> - 1"
    using from_at by (rule indexOf_present)
  have fc: "indexOf normalized ''for credit to account'' \<noteq> - 1"
    using credit_at by (rule indexOf_present)
  have "indexOf normalized ''for credit to account'' \<le> int j"
    using credit_at by (rule indexOf_upper_bound)
  moreover have "int j \<le> indexOf normalized ''from account''"
    using fa none_before by (rule indexOf_lower_bound)
  ultimately have "indexOf normalized ''from account''
      \<ge> indexOf normalized ''for credit to account''" by simp
  with fa fc debit show ?thesis
    by (simp add: parseInstruction_def parseDebit_def Let_def normalized_def)
qed

theorem swapped_anchors_SY02_witness:
  "startsWith (trim (toLowerCase ''Debit 500 NGN for credit to account a1 from account a2''))
     ''debit''
   \<and> prefix ''for credit to account''
       (drop 14 (trim (toLowerCase ''Debit 500 NGN for credit to account a1 from account a2'')))
   \<and> prefix ''from account''
       (drop 39 (trim (toLowerCase ''Debit 500 NGN for credit to account a1 from account a2'')))
   \<and> parseInstruction ''Debit 500 NGN for credit to account a1 from account a2'' = Inl SY02"
  (is "startsWith ?n _ \<and> ?c \<and> ?f \<and> ?r")
proof -
  have d: "startsWith ?n ''debit''" by code_simp
  have c: "14 \<le> length ?n" "?c" by code_simp+
  have f: "39 \<le> length ?n" "?f" by code_simp+
  have ix: "indexOf ?n ''from account'' = 39" by code_simp
  then have "indexOf ?n ''from account'' \<noteq> - 1" by simp
  then obtain k where k: "indexOf ?n ''from account'' = int k"
    "\<forall>j<k. \<not> prefix ''from account'' (drop j ?n)" by (rule indexOf_found)
  with ix have "k = 39" by simp
  with k(2) have nb: "\<forall>k<14. \<not> prefix ''from account'' (drop k ?n)" by simp
  from swapped_anchors_SY02 [OF d c f nb] have "?r" .
  with d c f show ?thesis by simp
qed

subsection \<open>The date validator\<close>



subsection \<open>Account ids with upper-case letters\<close>



subsection \<open>The amount validator\<close>



subsection \<open>The scenarios of the specification\<close>

text \<open>The example scenarios of section 8 of the specification, run on the model.\<close>

lemma scenario_1_successful:
  "parseInstructionService scenario_platform
     \<lparr>accounts = scenario_accounts,
      instruction = ''debit 500 NGN from account a1 for credit to account a2''\<rparr>
   = \<lparr>r_type = Some DEBIT, r_amount = Some 500, r_currency = Some ''NGN'',
      r_debit_account = Some ''a1'', r_credit_account = Some ''a2'', r_execute_by = None,
      status = successful, status_reason = ''Transaction executed successfully'',
      status_code = AP00,
      r_accounts =
        [\<lparr>v_id = ''a1'', v_balance = 500, v_balance_before = 1000, v_currency = ''NGN''\<rparr>,
         \<lparr>v_id = ''a2'', v_balance = 700, v_balance_before = 200, v_currency = ''NGN''\<rparr>]\<rparr>"
  by code_simp

lemma scenario_2_pending:
  "parseInstructionService scenario_platform
     \<lparr>accounts = scenario_accounts,
      instruction = ''debit 500 NGN from account a1 for credit to account a2 on 2999-01-01''\<rparr>
   = \<lparr>r_type = Some DEBIT, r_amount = Some 500, r_currency = Some ''NGN'',
      r_debit_account = Some ''a1'', r_credit_account = Some ''a2'',
      r_execute_by = Some ''2999-01-01'',
      status = pending, status_reason = ''Transaction scheduled for future execution'',
      status_code = AP01,
      r_accounts =
        [\<lparr>v_id = ''a1'', v_balance = 1000, v_balance_before = 1000, v_currency = ''NGN''\<rparr>,
         \<lparr>v_id = ''a2'', v_balance = 200, v_balance_before = 200, v_currency = ''NGN''\<rparr>]\<rparr>"
  by code_simp

lemma scenario_3_currency_mismatch:
  "status_code (parseInstructionService scenario_platform
     \<lparr>accounts = scenario_accounts,
      instruction = ''credit 50 USD to account a2 for debit from account a1''\<rparr>) = CU01"
  by code_simp

lemma scenario_4_same_account:
  "status_code (parseInstructionService scenario_platform
     \<lparr>accounts = scenario_accounts,
      instruction = ''debit 300 NGN from account a1 for credit to account a1''\<rparr>) = AC02"
  by code_simp

lemma scenario_5_unparseable:
  "parseInstructionService scenario_platform
     \<lparr>accounts = scenario_accounts, instruction = ''please move money''\<rparr>
   = \<lparr>r_type = None, r_amount = None, r_currency = None, r_debit_account = None,
      r_credit_account = None, r_execute_by = None, status = failed,
      status_reason = ''Malformed instruction: unable to parse keywords'',
      status_code = SY03, r_accounts = []\<rparr>"
  by code_simp

lemma scenario_6_insufficient_funds:
  "status_code (parseInstructionService scenario_platform
     \<lparr>accounts = [\<lparr>acc_id = ''a1'', acc_balance = 100, acc_currency = ''NGN''\<rparr>,
                  \<lparr>acc_id = ''a2'', acc_balance = 200, acc_currency = ''NGN''\<rparr>],
      instruction = ''debit 500 NGN from account a1 for credit to account a2''\<rparr>) = AC01
   \<and> map v_balance (r_accounts (parseInstructionService scenario_platform
     \<lparr>accounts = [\<lparr>acc_id = ''a1'', acc_balance = 100, acc_currency = ''NGN''\<rparr>,
                  \<lparr>acc_id = ''a2'', acc_balance = 200, acc_currency = ''NGN''\<rparr>],
      instruction = ''debit 500 NGN from account a1 for credit to account a2''\<rparr>)) = [100, 200]"
  by code_simp

end
